theory Spec2Isabelle
  imports
    Complex_Main
    "HOL-Library.Char_ord"
    "HOL-Library.List_Lexorder"
    "HOL-Library.Product_Lexorder"
    "HOL-Library.Multiset"
begin

unbundle bit_operations_syntax

section \<open>DocStructureX: the outline extractor of src/main.py\<close>

text \<open>
  The development embeds the class \<open>DocStructureXExtractor\<close>. Python method names lose
  their leading underscore (\<open>_time_left\<close> is \<open>time_left\<close>). The messages that
  \<open>extract_outline\<close> and \<open>_log_time\<close> print are modelled, with a console that may refuse
  them; the two warnings printed inside \<open>_extract_with_pymupdf\<close> are not, and everything
  else a method does is.

  Conventions.
  \<^item> Python \<open>str\<close> is \<open>string\<close>: a list of \<open>char\<close>, read as code points below 256.
    The character tables of the runtime (white space, decimal digits, lower case) are
    written out for that range.
  \<^item> Python \<open>float\<close> (font sizes, clock readings) is \<open>real\<close>: the code only compares
    and subtracts them.
  \<^item> Python \<open>int\<close> is \<open>int\<close>.
  \<^item> A raised \<open>Exception\<close> is the left summand of a result type.
\<close>

subsection \<open>Data\<close>

datatype level = H1 | H2 | H3

record heading =
  level :: level
  htext :: string
  hpage :: int

record result =
  title :: string
  outline :: "heading list"

datatype fault = Exception string

text \<open>The three strategies; used only to report which of them a run has called.\<close>

datatype strategy = MetadataStrategy | LayoutStrategy | PatternStrategy

text \<open>
  The state of one run: the field \<open>self.start_time\<close> and the number of readings of
  \<open>time.time()\<close> taken so far. The clock itself is a function \<open>nat \<Rightarrow> real\<close>: its
  value at \<open>k\<close> is what the \<open>k\<close>-th call of \<open>time.time()\<close> returns.
\<close>

record state =
  start_time :: "real option"
  ticks :: nat

type_synonym 'a action = "state \<Rightarrow> (fault + 'a) \<times> state"

subsection \<open>Console output\<close>

text \<open>
  What \<open>extract_outline\<close> and \<open>_log_time\<close> print: the f-strings of lines 203, 34 and
  37, given by their format arguments (step name, elapsed time and \<open>max_runtime\<close>; the
  path; the path and the exception). The console is a function that tells, for each
  message, whether \<open>print\<close> returns (\<open>None\<close>) or raises, and what it raises: an output
  stream raises \<open>UnicodeEncodeError\<close> on a character its encoding does not have.
\<close>

datatype message =
  Info string real real
| Warning string
| Error string fault

type_synonym console = "message \<Rightarrow> fault option"

definition print :: "console \<Rightarrow> message \<Rightarrow> fault + unit" where
  "print console m = (case console m of None \<Rightarrow> Inr () | Some e \<Rightarrow> Inl e)"

subsection \<open>Time budget and validator\<close>

text \<open>
  \<open>elapsed = time.time() - self.start_time if self.start_time else 0\<close>:
  the clock is read only when \<open>start_time\<close> is truthy (neither \<open>None\<close> nor \<open>0.0\<close>).
\<close>

definition time_left :: "(nat \<Rightarrow> real) \<Rightarrow> real \<Rightarrow> state \<Rightarrow> real \<times> state" where
  "time_left clock max_runtime s =
     (case start_time s of
        None \<Rightarrow> (max_runtime - 0, s)
      | Some t0 \<Rightarrow>
          if t0 = 0 then (max_runtime - 0, s)
          else (max_runtime - (clock (ticks s) - t0), s\<lparr>ticks := Suc (ticks s)\<rparr>))"

text \<open>
  \<open>_log_time\<close> reads the clock, subtracts \<open>start_time\<close> (a \<open>TypeError\<close> when that is
  \<open>None\<close>) and prints.
\<close>

definition log_time ::
  "console \<Rightarrow> (nat \<Rightarrow> real) \<Rightarrow> real \<Rightarrow> string \<Rightarrow> unit action" where
  "log_time console clock max_runtime step_name s =
     (let s' = s\<lparr>ticks := Suc (ticks s)\<rparr>
      in case start_time s of
           None \<Rightarrow>
             (Inl (Exception ''TypeError''), s')
         | Some t0 \<Rightarrow>
             (print console (Info step_name (clock (ticks s) - t0) max_runtime), s'))"

definition validate_result :: "result option \<Rightarrow> bool" where
  "validate_result r =
     (case r of
        None \<Rightarrow> False
      | Some d \<Rightarrow> (let count = length (outline d) in 1 \<le> count \<and> count \<le> 100))"

subsection \<open>The pipeline driver\<close>

definition untitled_sentinel :: result where
  "untitled_sentinel = \<lparr>title = ''Untitled Document'', outline = []\<rparr>"

definition error_sentinel :: result where
  "error_sentinel = \<lparr>title = ''Error in Processing'', outline = []\<rparr>"

text \<open>
  The body of the \<open>try\<close> block of \<open>extract_outline\<close>, read bottom up. Each strategy
  is a parameter: an action that returns a candidate (\<open>None\<close> or a dictionary) or raises.
  Beside the outcome and the state, each stage reports the strategies it has called, in
  order.

  A candidate that the validator accepts is returned after \<open>_log_time\<close> (lines 22 and 23,
  27 and 28, 32 and 33).
\<close>

type_synonym run = "(fault + result) \<times> state \<times> strategy list"

definition accepted ::
  "console \<Rightarrow> (nat \<Rightarrow> real) \<Rightarrow> real \<Rightarrow> string \<Rightarrow> result \<Rightarrow> state \<Rightarrow> (fault + result) \<times> state"
  where
  "accepted console clock max_runtime step_name d s =
     (case log_time console clock max_runtime step_name s of
        (Inl e, s') \<Rightarrow> (Inl e, s')
      | (Inr u, s') \<Rightarrow> (Inr d, s'))"

text \<open>Lines 34 and 35: the warning, then the dictionary without entries.\<close>

definition give_up :: "console \<Rightarrow> string \<Rightarrow> fault + result" where
  "give_up console pdf_path =
     (case print console (Warning pdf_path) of
        Inl e \<Rightarrow> Inl e
      | Inr u \<Rightarrow> Inr untitled_sentinel)"

text \<open>Lines 29 to 35: the regex fallback and the final \<open>return\<close>.\<close>

definition regex_stage ::
  "console \<Rightarrow> (nat \<Rightarrow> real) \<Rightarrow> real \<Rightarrow> string \<Rightarrow> result option action \<Rightarrow> state \<Rightarrow> run" where
  "regex_stage console clock max_runtime pdf_path pat s =
     (case time_left clock max_runtime s of
        (t, s1) \<Rightarrow>
          if t > 1 then
            (case pat s1 of
               (Inl e, s2) \<Rightarrow> (Inl e, s2, [PatternStrategy])
             | (Inr fallback_result, s2) \<Rightarrow>
                 (case fallback_result of
                    Some d \<Rightarrow>
                      if validate_result fallback_result
                      then (case accepted console clock max_runtime
                                   ''Regex fallback extraction'' d s2 of
                              (r, s3) \<Rightarrow> (r, s3, [PatternStrategy]))
                      else (give_up console pdf_path, s2, [PatternStrategy])
                  | None \<Rightarrow> (give_up console pdf_path, s2, [PatternStrategy])))
          else (give_up console pdf_path, s1, []))"

text \<open>Lines 24 to 28: the layout heuristic, then the rest.\<close>

definition heuristic_stage ::
  "console \<Rightarrow> (nat \<Rightarrow> real) \<Rightarrow> real \<Rightarrow> string \<Rightarrow> result option action \<Rightarrow>
     result option action \<Rightarrow> state \<Rightarrow> run" where
  "heuristic_stage console clock max_runtime pdf_path lay pat s =
     (case time_left clock max_runtime s of
        (t, s1) \<Rightarrow>
          if t > 5 then
            (case lay s1 of
               (Inl e, s2) \<Rightarrow> (Inl e, s2, [LayoutStrategy])
             | (Inr heuristic_result, s2) \<Rightarrow>
                 (case heuristic_result of
                    Some d \<Rightarrow>
                      if validate_result heuristic_result
                      then (case accepted console clock max_runtime
                                   ''Heuristic extraction'' d s2 of
                              (r, s3) \<Rightarrow> (r, s3, [LayoutStrategy]))
                      else (case regex_stage console clock max_runtime pdf_path pat s2 of
                              (r, s3, tr) \<Rightarrow> (r, s3, LayoutStrategy # tr))
                  | None \<Rightarrow>
                      (case regex_stage console clock max_runtime pdf_path pat s2 of
                         (r, s3, tr) \<Rightarrow> (r, s3, LayoutStrategy # tr))))
          else regex_stage console clock max_runtime pdf_path pat s1)"

text \<open>Lines 20 to 23: the bookmark strategy, then the rest.\<close>

definition try_body ::
  "console \<Rightarrow> (nat \<Rightarrow> real) \<Rightarrow> real \<Rightarrow> string \<Rightarrow> result option action \<Rightarrow>
     result option action \<Rightarrow> result option action \<Rightarrow> state \<Rightarrow> run" where
  "try_body console clock max_runtime pdf_path toc lay pat s =
     (case toc s of
        (Inl e, s1) \<Rightarrow> (Inl e, s1, [MetadataStrategy])
      | (Inr toc_result, s1) \<Rightarrow>
          (case toc_result of
             Some d \<Rightarrow>
               if validate_result toc_result
               then (case accepted console clock max_runtime ''TOC extraction'' d s1 of
                       (r, s2) \<Rightarrow> (r, s2, [MetadataStrategy]))
               else (case heuristic_stage console clock max_runtime pdf_path lay pat s1 of
                       (r, s2, tr) \<Rightarrow> (r, s2, MetadataStrategy # tr))
           | None \<Rightarrow>
               (case heuristic_stage console clock max_runtime pdf_path lay pat s1 of
                  (r, s2, tr) \<Rightarrow> (r, s2, MetadataStrategy # tr))))"

text \<open>
  The \<open>except Exception as exc\<close> clause, lines 36 to 38, applied to the outcome of the
  \<open>try\<close> block: an exception raised there is printed, then the error dictionary is
  returned. The \<open>print\<close> of line 37 stands in no \<open>try\<close> block: what it raises leaves
  \<open>extract_outline\<close>.
\<close>

definition handler :: "console \<Rightarrow> string \<Rightarrow> fault + result \<Rightarrow> fault + result" where
  "handler console pdf_path r =
     (case r of
        Inl exc \<Rightarrow>
          (case print console (Error pdf_path exc) of
             Inl e \<Rightarrow> Inl e
           | Inr u \<Rightarrow> Inr error_sentinel)
      | Inr d \<Rightarrow> Inr d)"

text \<open>
  \<open>extract_outline\<close>: set \<open>start_time\<close>, run the body, handle what it raises. The
  outcome is the dictionary returned, or the exception that leaves the method; the state
  and the list of strategies called are returned with it.
\<close>

definition started :: "(nat \<Rightarrow> real) \<Rightarrow> state \<Rightarrow> state" where
  "started clock s = s\<lparr>start_time := Some (clock (ticks s)), ticks := Suc (ticks s)\<rparr>"

definition extract_outline_with ::
  "console \<Rightarrow> (nat \<Rightarrow> real) \<Rightarrow> real \<Rightarrow> string \<Rightarrow> result option action \<Rightarrow>
     result option action \<Rightarrow> result option action \<Rightarrow> state \<Rightarrow> run" where
  "extract_outline_with console clock max_runtime pdf_path toc lay pat s =
     (case try_body console clock max_runtime pdf_path toc lay pat (started clock s) of
        (r, s', tr) \<Rightarrow> (handler console pdf_path r, s', tr))"

definition fresh :: state where
  "fresh = \<lparr>start_time = None, ticks = 0\<rparr>"

subsection \<open>Strings\<close>

text \<open>
  The characters that \<open>str.strip()\<close> removes and that \<open>\s\<close> matches in a \<open>str\<close>
  pattern, below code point 256: tab to carriage return, the four separators
  \<open>0x1C\<close> to \<open>0x1F\<close>, the space, \<open>0x85\<close> and the no-break space.
\<close>

definition whitespace :: "char list" where
  "whitespace = [CHR 0x09, CHR 0x0A, CHR 0x0B, CHR 0x0C, CHR 0x0D, CHR 0x1C, CHR 0x1D,
                 CHR 0x1E, CHR 0x1F, CHR '' '', CHR 0x85, CHR 0xA0]"

definition is_space :: "char \<Rightarrow> bool" where
  "is_space c = (c \<in> set whitespace)"

text \<open>\<open>\d\<close> (the decimal digits below 256 are the ASCII ones) and \<open>[A-Z]\<close>.\<close>

definition is_digit :: "char \<Rightarrow> bool" where
  "is_digit c = (c \<in> set ''0123456789'')"

definition is_upper_AZ :: "char \<Rightarrow> bool" where
  "is_upper_AZ c = (c \<in> set ''ABCDEFGHIJKLMNOPQRSTUVWXYZ'')"

text \<open>
  \<open>str.lower()\<close> below 256: the ASCII capitals and the Latin-1 capitals \<open>0xC0\<close> to
  \<open>0xDE\<close> (without the multiplication sign \<open>0xD7\<close>) move up by 32.
\<close>

definition lower_char :: "char \<Rightarrow> char" where
  "lower_char c =
     (let n = (of_char c :: nat)
      in if (65 \<le> n \<and> n \<le> 90) \<or> (192 \<le> n \<and> n \<le> 222 \<and> n \<noteq> 215)
         then char_of (n + 32) else c)"

definition lower :: "string \<Rightarrow> string" where
  "lower s = map lower_char s"

text \<open>\<open>s.strip(chars)\<close> and \<open>s.strip()\<close>.\<close>

definition strip :: "string \<Rightarrow> string \<Rightarrow> string" where
  "strip chars s =
     rev (dropWhile (\<lambda>c. c \<in> set chars) (rev (dropWhile (\<lambda>c. c \<in> set chars) s)))"

definition strip_ws :: "string \<Rightarrow> string" where
  "strip_ws s = rev (dropWhile is_space (rev (dropWhile is_space s)))"

subsection \<open>Regular expressions\<close>

text \<open>
  The patterns of the source are values of \<open>regex\<close>; \<open>matches r s\<close> runs the
  backtracking matcher of \<open>re\<close> at the start of \<open>s\<close> and returns, for every way
  \<open>r\<close> can match a prefix of \<open>s\<close>, the rest of \<open>s\<close>, in the order in which the
  matcher tries them: the head of the list is the match \<open>re\<close> reports.
  \<open>Star\<close> is the greedy \<open>*\<close>, \<open>Lazy\<close> is \<open>*?\<close>, \<open>Rep m n\<close> is the greedy
  \<open>{m,n}\<close> and \<open>Eol\<close> is \<open>$\<close> without \<open>MULTILINE\<close> (the end of the string, or just
  before a final newline). A leading \<open>^\<close> is dropped from the patterns given to
  \<open>re.match\<close>, which tries the start of the string only. An iteration of \<open>Star\<close> or
  \<open>Lazy\<close> that consumes nothing is not repeated.
\<close>

datatype regex =
    Eps
  | Chr "char \<Rightarrow> bool"
  | Seq regex regex
  | Alt regex regex
  | Star regex
  | Lazy regex
  | Rep nat nat regex
  | Eol

fun rsize :: "regex \<Rightarrow> nat" where
  "rsize Eps = 1"
| "rsize (Chr p) = 1"
| "rsize (Seq a b) = rsize a + rsize b + 1"
| "rsize (Alt a b) = rsize a + rsize b + 1"
| "rsize (Star a) = rsize a + 1"
| "rsize (Lazy a) = rsize a + 1"
| "rsize (Rep m n a) = rsize a + n + 1"
| "rsize Eol = 1"

function matches :: "regex \<Rightarrow> string \<Rightarrow> string list" where
  "matches Eps s = [s]"
| "matches (Chr p) s = (case s of [] \<Rightarrow> [] | c # cs \<Rightarrow> if p c then [cs] else [])"
| "matches (Seq a b) s = concat (map (matches b) (matches a s))"
| "matches (Alt a b) s = matches a s @ matches b s"
| "matches (Star a) s =
     concat (map (\<lambda>r. if length r < length s then matches (Star a) r else []) (matches a s))
     @ [s]"
| "matches (Lazy a) s =
     s # concat (map (\<lambda>r. if length r < length s then matches (Lazy a) r else [])
                    (matches a s))"
| "matches (Rep m n a) s =
     (if n = 0 then [s]
      else concat (map (matches (Rep (m - 1) (n - 1) a)) (matches a s))
           @ (if m = 0 then [s] else []))"
| "matches Eol s = (if s = [] \<or> s = [CHR 0x0A] then [s] else [])"
  by pat_completeness auto
termination
  by (relation "measures [\<lambda>(r, s). rsize r, \<lambda>(r, s). length s]") auto

text \<open>
  A literal string, the same under \<open>re.IGNORECASE\<close>, \<open>r+\<close> and \<open>r?\<close>.
\<close>

definition lit :: "string \<Rightarrow> regex" where
  "lit s = foldr (\<lambda>c r. Seq (Chr (\<lambda>x. x = c)) r) s Eps"

definition ilit :: "string \<Rightarrow> regex" where
  "ilit s = foldr (\<lambda>c r. Seq (Chr (\<lambda>x. lower_char x = lower_char c)) r) s Eps"

definition Plus :: "regex \<Rightarrow> regex" where
  "Plus a = Seq a (Star a)"

definition Opt :: "regex \<Rightarrow> regex" where
  "Opt a = Alt a Eps"

text \<open>\<open>\d+\<close>, \<open>\s+\<close>, \<open>\.\<close> and \<open>.\<close> (or \<open>[^\n]\<close>).\<close>

definition digits1 :: regex where
  "digits1 = Plus (Chr is_digit)"

definition spaces1 :: regex where
  "spaces1 = Plus (Chr is_space)"

definition dot :: regex where
  "dot = Chr (\<lambda>x. x = CHR ''.'')"

definition not_newline :: regex where
  "not_newline = Chr (\<lambda>x. x \<noteq> CHR 0x0A)"

text \<open>\<open>re.match(r, s)\<close>, read as a truth value.\<close>

definition re_match :: "regex \<Rightarrow> string \<Rightarrow> bool" where
  "re_match r s = (matches r s \<noteq> [])"


text \<open>
  \<open>re.sub(r, repl, s)\<close> for a replacement without group references: scan from the
  left, replace the reported match, go on after it; copy a character where nothing
  matches. Where the match is empty the replacement is inserted and one character copied.
\<close>

function re_sub :: "regex \<Rightarrow> string \<Rightarrow> string \<Rightarrow> string" where
  "re_sub r repl s =
     (case matches r s of
        m # _ \<Rightarrow>
          if length m < length s then repl @ re_sub r repl m
          else (case s of [] \<Rightarrow> repl | c # cs \<Rightarrow> repl @ c # re_sub r repl cs)
      | [] \<Rightarrow> (case s of [] \<Rightarrow> [] | c # cs \<Rightarrow> c # re_sub r repl cs))"
  by pat_completeness auto
termination
  by (relation "measure (\<lambda>(r, repl, s). length s)") auto

declare re_sub.simps [simp del]

subsection \<open>The document engine\<close>

text \<open>
  What \<open>fitz\<close> gives for an opened file: the bookmarks \<open>doc.get_toc()\<close>, and for every
  page the dictionary \<open>page.get_text("dict")\<close> (blocks; a block with the key
  \<open>"lines"\<close> holds lines, a line holds spans) and the plain text \<open>page.get_text()\<close>.
  \<open>fitz.open\<close> itself returns a document or raises: a value of \<open>fault + document\<close>.
\<close>

record span =
  span_text :: string
  span_size :: real
  span_flags :: int
  span_bbox :: "real \<times> real \<times> real \<times> real"

type_synonym line = "span list"

datatype block = TextBlock "line list" | ImageBlock

record page =
  blocks :: "block list"
  raw_text :: string

type_synonym toc_item = "int \<times> string \<times> int"

record document =
  get_toc :: "toc_item list"
  pages :: "page list"

subsection \<open>MetadataStrategy: \<open>_extract_with_toc\<close>\<close>

text \<open>The loop of lines 47 to 56, with the list \<open>outline\<close> as an accumulator.\<close>

fun toc_loop :: "toc_item list \<Rightarrow> heading list \<Rightarrow> heading list" where
  "toc_loop [] outl = outl"
| "toc_loop ((lvl, ttl, page) # rest) outl =
     (let title_clean = strip '' .,;:'' (re_sub spaces1 '' '' ttl)
      in if title_clean = [] \<or> length title_clean < 3 \<or> length title_clean > 150
         then toc_loop rest outl
         else toc_loop rest
                (outl @ [\<lparr>level = (if lvl = 1 then H1 else if lvl = 2 then H2 else H3),
                             htext = title_clean, hpage = page\<rparr>]))"

definition toc_outline :: "document \<Rightarrow> result option" where
  "toc_outline doc =
     (if get_toc doc = [] then None
      else case toc_loop (get_toc doc) [] of
             [] \<Rightarrow> None
           | first # others \<Rightarrow>
               Some \<lparr>title = (if length (htext first) > 100 then ''Untitled Document''
                               else htext first),
                     outline = first # others\<rparr>)"

definition extract_with_toc :: "fault + document \<Rightarrow> result option action" where
  "extract_with_toc opened s =
     (case opened of Inl e \<Rightarrow> (Inl e, s) | Inr doc \<Rightarrow> (Inr (toc_outline doc), s))"

subsection \<open>LayoutStrategy: \<open>_extract_with_pymupdf\<close> and its helpers\<close>

text \<open>The dictionaries appended to \<open>all_blocks\<close> (lines 77 to 83).\<close>

record frag =
  btext :: string
  bpage :: int
  font_size :: real
  font_flags :: int
  bbox :: "real \<times> real \<times> real \<times> real"

fun block_lines :: "block \<Rightarrow> line list" where
  "block_lines (TextBlock ls) = ls"
| "block_lines ImageBlock = []"

text \<open>The spans that the three nested loops of lines 71 to 74 visit, in order.\<close>

definition page_spans :: "page \<Rightarrow> span list" where
  "page_spans pg = concat (concat (map block_lines (blocks pg)))"

definition page_blocks :: "int \<Rightarrow> page \<Rightarrow> frag list" where
  "page_blocks page_num pg =
     concat (map (\<lambda>sp.
        (let text = strip_ws (span_text sp)
         in if text \<noteq> [] \<and> length text > 2
            then [\<lparr>btext = text, bpage = page_num + 1, font_size = span_size sp,
                   font_flags = span_flags sp, bbox = span_bbox sp\<rparr>]
            else []))
       (page_spans pg))"

text \<open>
  The page loop of lines 68 to 86: collect the page, then read the clock and stop when
  less than 0.5 is left.
\<close>

fun scan_pages ::
  "(nat \<Rightarrow> real) \<Rightarrow> real \<Rightarrow> page list \<Rightarrow> int \<Rightarrow> frag list \<Rightarrow> state \<Rightarrow> frag list \<times> state" where
  "scan_pages clock max_runtime [] page_num all_blocks s = (all_blocks, s)"
| "scan_pages clock max_runtime (pg # rest) page_num all_blocks s =
     (let all_blocks' = all_blocks @ page_blocks page_num pg
      in case time_left clock max_runtime s of
           (t, s') \<Rightarrow>
             if t < 0.5 then (all_blocks', s')
             else scan_pages clock max_runtime rest (page_num + 1) all_blocks' s')"

text \<open>
  \<open>statistics.mode\<close> of the standard library, as it is since Python 3.8:
  \<open>Counter(iter(data)).most_common(1)\<close>, that is the value with the highest count
  and, among several of them, the one met first in the data ("If there are multiple modes
  with the same frequency, returns the first one encountered in the data"); on empty data
  it raises \<open>StatisticsError\<close>. \<open>first_seen\<close> lists the distinct values in the order
  of their first occurrence, the order in which a \<open>Counter\<close> holds its keys.
\<close>

definition first_seen :: "'a list \<Rightarrow> 'a list" where
  "first_seen xs = rev (remdups (rev xs))"

definition mode :: "real list \<Rightarrow> fault + real" where
  "mode data =
     (case first_seen data of
        [] \<Rightarrow> Inl (Exception ''no mode for empty data'')
      | k # ks \<Rightarrow>
          Inr (foldl (\<lambda>best x. if count_list data x > count_list data best then x else best)
                 k ks))"

text \<open>Lines 88 to 92, with the bare \<open>except\<close> as the \<open>Inl\<close> branch.\<close>

definition body_font_size :: "frag list \<Rightarrow> real" where
  "body_font_size all_blocks =
     (let font_sizes = map font_size (filter (\<lambda>b. font_size b > 0) all_blocks)
      in case (if font_sizes \<noteq> [] then mode font_sizes else Inr 12) of
           Inr body_font \<Rightarrow> body_font
         | Inl exc \<Rightarrow> 12)"

text \<open>
  \<open>_extract_title\<close>. \<open>list.sort\<close> is stable, as \<open>sort_key\<close> is; \<open>bbox[1]\<close> is
  the second component.
\<close>

definition extract_title :: "frag list \<Rightarrow> real \<Rightarrow> string" where
  "extract_title blks body =
     (let first_pages = filter (\<lambda>b. bpage b \<le> 3) blks;
          candidates = filter (\<lambda>b. font_size b > body + 2 \<and>
                                   5 < length (btext b) \<and> length (btext b) < 200) first_pages
      in case sort_key (\<lambda>x. (bpage x, fst (snd (bbox x)))) candidates of
           c # _ \<Rightarrow> btext c
         | [] \<Rightarrow>
             (case filter (\<lambda>b. length (btext b) > 10) first_pages of
                b # _ \<Rightarrow> btext b
              | [] \<Rightarrow> ''Untitled Document''))"


text \<open>The four patterns of \<open>_heading_level\<close>.\<close>

definition numbered_re :: regex where
  "numbered_re =
     Alt (Seq digits1 (Seq (Opt dot) spaces1))
       (Alt (Seq digits1 (Seq dot (Seq digits1 (Seq (Opt dot) spaces1))))
          (Seq (Plus (Chr (\<lambda>x. x \<in> set ''IVXLC''))) (Seq (Opt dot) spaces1)))"

definition chapter_re :: regex where
  "chapter_re =
     Seq (Alt (ilit ''Chapter'') (Alt (ilit ''Section'') (ilit ''Part''))) (Seq spaces1 digits1)"

definition h2_re :: regex where
  "h2_re = Seq digits1 (Seq dot (Seq spaces1 (Chr is_upper_AZ)))"

definition h3_re :: regex where
  "h3_re = Seq digits1 (Seq dot (Seq digits1 (Seq spaces1 (Chr is_upper_AZ))))"

definition heading_level :: "frag \<Rightarrow> real \<Rightarrow> level option" where
  "heading_level blk body =
     (let text = btext blk;
          size_diff = font_size blk - body;
          is_bold = ((font_flags blk AND 2 ^ 4) \<noteq> 0);
          numbered = re_match numbered_re text;
          chapter = re_match chapter_re text
      in if size_diff \<ge> 6 then Some H1
         else if size_diff \<ge> 4 \<or> (size_diff \<ge> 2 \<and> is_bold)
              then (if size_diff \<ge> 4 then Some H2 else Some H3)
         else if is_bold \<and> (numbered \<or> chapter) then Some H2
         else if numbered \<and> size_diff \<ge> 1 then Some H3
         else if re_match h2_re text then Some H2
         else if re_match h3_re text then Some H3
         else None)"

text \<open>\<open>re.search\<close> as a truth value, and the substring test \<open>sub in s\<close>.\<close>

fun re_search :: "regex \<Rightarrow> string \<Rightarrow> bool" where
  "re_search r [] = re_match r []"
| "re_search r (c # cs) = (re_match r (c # cs) \<or> re_search r cs)"

fun contains :: "string \<Rightarrow> string \<Rightarrow> bool" where
  "contains sub [] = (sub = [])"
| "contains sub (c # cs) = (take (length sub) (c # cs) = sub \<or> contains sub cs)"

definition is_artifact :: "string \<Rightarrow> bool" where
  "is_artifact text =
     (if re_match (Seq digits1 Eol) text \<or> re_match (Seq (ilit ''Page '') digits1) text
      then True
      else if list_ex (\<lambda>artifact. contains artifact (lower text))
                [''copyright'', ''all rights reserved'', ''page'', ''table of contents'']
      then True
      else if re_search (Alt (lit ''http'') (Alt (Seq (lit ''www'') dot) (lit ''@''))) text
      then True
      else False)"

text \<open>\<open>_clean_headings\<close>: the loop with its two accumulators.\<close>

fun clean_loop :: "heading list \<Rightarrow> heading list \<Rightarrow> string set \<Rightarrow> heading list" where
  "clean_loop [] cleaned seen = cleaned"
| "clean_loop (h # hs) cleaned seen =
     (let text = strip ''.,;:'' (re_sub spaces1 '' '' (htext h))
      in if text \<noteq> [] \<and> text \<notin> seen \<and> length text \<ge> 3
         then clean_loop hs (cleaned @ [h\<lparr>htext := text\<rparr>]) (insert text seen)
         else clean_loop hs cleaned seen)"

definition clean_headings :: "heading list \<Rightarrow> heading list" where
  "clean_headings headings = clean_loop headings [] {}"

text \<open>
  The loop of \<open>_extract_headings_multilayer\<close> (lines 111 to 125). A block that is
  skipped by \<open>continue\<close> does not reach the clock; any other block does, and the
  loop stops when less than 0.2 is left.
\<close>

fun headings_loop ::
  "(nat \<Rightarrow> real) \<Rightarrow> real \<Rightarrow> real \<Rightarrow> frag list \<Rightarrow> heading list \<Rightarrow> string set \<Rightarrow> state \<Rightarrow>
     heading list \<times> state" where
  "headings_loop clock max_runtime body [] headings seen s = (headings, s)"
| "headings_loop clock max_runtime body (blk # rest) headings seen s =
     (let text = strip_ws (btext blk)
      in if text \<in> seen \<or> length text < 3 \<or> length text > 150 \<or> is_artifact text
         then headings_loop clock max_runtime body rest headings seen s
         else
           (case (case heading_level blk body of
                    Some lvl \<Rightarrow>
                      (headings @ [\<lparr>level = lvl, htext = text, hpage = bpage blk\<rparr>],
                       insert text seen)
                  | None \<Rightarrow> (headings, seen)) of
              (headings', seen') \<Rightarrow>
                (case time_left clock max_runtime s of
                   (t, s') \<Rightarrow>
                     if t < 0.2 then (headings', s')
                     else headings_loop clock max_runtime body rest headings' seen' s')))"

definition extract_headings_multilayer ::
  "(nat \<Rightarrow> real) \<Rightarrow> real \<Rightarrow> frag list \<Rightarrow> real \<Rightarrow> state \<Rightarrow> heading list \<times> state" where
  "extract_headings_multilayer clock max_runtime blks body s =
     (case headings_loop clock max_runtime body blks [] {} s of
        (headings, s') \<Rightarrow>
          (clean_headings (sort_key (\<lambda>x. (hpage x, htext x)) headings), s'))"

definition extract_with_pymupdf ::
  "(nat \<Rightarrow> real) \<Rightarrow> real \<Rightarrow> fault + document \<Rightarrow> result option action" where
  "extract_with_pymupdf clock max_runtime opened s =
     (case opened of
        Inl e \<Rightarrow> (Inl e, s)
      | Inr doc \<Rightarrow>
          (case scan_pages clock max_runtime (take 50 (pages doc)) 0 [] s of
             (all_blocks, s1) \<Rightarrow>
               (let body_font = body_font_size all_blocks;
                    ttl = extract_title all_blocks body_font
                in case extract_headings_multilayer clock max_runtime all_blocks body_font s1 of
                     (headings, s2) \<Rightarrow> (Inr (Some \<lparr>title = ttl, outline = headings\<rparr>), s2))))"

subsection \<open>PatternStrategy: \<open>_extract_with_regex_fallback\<close>\<close>

text \<open>\<open>str(n)\<close> for a natural number and \<open>int(s)\<close> for a string of digits.\<close>

definition digit_char :: "nat \<Rightarrow> char" where
  "digit_char d = ''0123456789'' ! d"

function str_nat :: "nat \<Rightarrow> string" where
  "str_nat n = (if n < 10 then [digit_char n] else str_nat (n div 10) @ [digit_char (n mod 10)])"
  by pat_completeness auto
termination
  by (relation "measure id") auto

definition int_of_digits :: "string \<Rightarrow> int" where
  "int_of_digits ds = foldl (\<lambda>a c. 10 * a + (of_char c - 48)) 0 ds"

definition all_text :: "page list \<Rightarrow> string" where
  "all_text pgs =
     foldl (\<lambda>txt (page_num, pg). txt @ ''[PAGE_'' @ str_nat (page_num + 1) @ '']'' @ raw_text pg)
       [] (enumerate 0 (take 50 pgs))"

text \<open>
  The text a group has matched, from what was left before and after it. \<open>marked\<close> is
  the pattern \<open>\[PAGE_(\d+)\].*?(body)\<close> with its two groups: each way of matching
  gives the two groups and the rest of the text.
\<close>

definition captured :: "string \<Rightarrow> string \<Rightarrow> string" where
  "captured before after = take (length before - length after) before"

definition marked :: "regex \<Rightarrow> regex \<Rightarrow> string \<Rightarrow> ((string \<times> string) \<times> string) list" where
  "marked marker body s =
     [((captured r1 r2, captured r4 r5), r5).
        r1 \<leftarrow> matches marker s, r2 \<leftarrow> matches digits1 r1, r3 \<leftarrow> matches (lit '']'') r2,
        r4 \<leftarrow> matches (Lazy not_newline) r3, r5 \<leftarrow> matches body r4]"

text \<open>
  \<open>re.finditer\<close>: the matches found from left to right, each search starting where
  the last match ended. The argument gives the ways of matching at a position.
\<close>

function finditer :: "(string \<Rightarrow> ('a \<times> string) list) \<Rightarrow> string \<Rightarrow> 'a list" where
  "finditer m s =
     (case m s of
        (g, r) # _ \<Rightarrow>
          g # (if length r < length s then finditer m r
               else case s of [] \<Rightarrow> [] | _ # cs \<Rightarrow> finditer m cs)
      | [] \<Rightarrow> (case s of [] \<Rightarrow> [] | _ # cs \<Rightarrow> finditer m cs))"
  by pat_completeness auto
termination
  by (relation "measure (\<lambda>(m, s). length s)") auto

definition numbered_body :: regex where
  "numbered_body =
     Seq digits1 (Seq dot (Seq (Star (Chr is_digit))
       (Seq spaces1 (Seq (Chr is_upper_AZ) (Rep 5 80 not_newline)))))"

definition chapter_body :: regex where
  "chapter_body =
     Seq (Alt (ilit ''Chapter'') (ilit ''Section''))
       (Seq spaces1 (Seq digits1 (Rep 0 50 not_newline)))"

definition title_body :: regex where
  "title_body = Seq (Chr is_upper_AZ) (Rep 10 100 not_newline)"

definition numbered_headings :: "string \<Rightarrow> heading list" where
  "numbered_headings txt =
     map (\<lambda>(g1, g2).
            (let page_num = int_of_digits g1; text = strip_ws g2
             in \<lparr>level = (if count_list text (CHR ''.'') > 1 then H3 else H2),
                 htext = text, hpage = page_num\<rparr>))
       (finditer (marked (lit ''[PAGE_'') numbered_body) txt)"

definition chapter_headings :: "string \<Rightarrow> heading list" where
  "chapter_headings txt =
     map (\<lambda>(g1, g2). \<lparr>level = H1, htext = strip_ws g2, hpage = int_of_digits g1\<rparr>)
       (finditer (marked (ilit ''[PAGE_'') chapter_body) txt)"

definition title_match :: "string \<Rightarrow> string option" where
  "title_match txt =
     (case finditer (\<lambda>s. [(captured r2 r3, r3).
                            r1 \<leftarrow> matches (lit ''[PAGE_1]'') s,
                            r2 \<leftarrow> matches (Lazy not_newline) r1,
                            r3 \<leftarrow> matches title_body r2]) txt of
        [] \<Rightarrow> None
      | g # _ \<Rightarrow> Some g)"

definition regex_outline :: "document \<Rightarrow> result" where
  "regex_outline doc =
     (let txt = all_text (pages doc);
          headings = numbered_headings txt @ chapter_headings txt;
          ttl = (case title_match txt of Some g \<Rightarrow> strip_ws g | None \<Rightarrow> ''Untitled Document'')
      in \<lparr>title = ttl, outline = take 20 headings\<rparr>)"

definition extract_with_regex_fallback :: "fault + document \<Rightarrow> result option action" where
  "extract_with_regex_fallback opened s =
     (case opened of
        Inl e \<Rightarrow> (Inl e, s)
      | Inr doc \<Rightarrow> (Inr (Some (regex_outline doc)), s))"

subsection \<open>The extractor\<close>

definition extract_outline ::
  "console \<Rightarrow> (nat \<Rightarrow> real) \<Rightarrow> real \<Rightarrow> string \<Rightarrow> fault + document \<Rightarrow> state \<Rightarrow> run" where
  "extract_outline console clock max_runtime pdf_path opened =
     extract_outline_with console clock max_runtime pdf_path
       (extract_with_toc opened)
       (extract_with_pymupdf clock max_runtime opened)
       (extract_with_regex_fallback opened)"

subsection \<open>The specification of MetadataStrategy, in its own words\<close>

text \<open>
  "Whitespace runs collapsed to single spaces": every maximal run of white space becomes
  one space character.
\<close>

function collapse_ws :: "string \<Rightarrow> string" where
  "collapse_ws [] = []"
| "collapse_ws (c # cs) =
     (if is_space c then CHR '' '' # collapse_ws (dropWhile is_space cs)
      else c # collapse_ws cs)"
  by pat_completeness auto
termination
  by (relation "measure length") (auto simp: length_dropWhile_le less_Suc_eq_le)

text \<open>
  "Collapse whitespace, strip surrounding punctuation"; an item is retained when the
  normalized text has 3 to 150 characters; nesting level 1 gives H1, 2 gives H2, any other
  value H3; the title is the first retained text, or the sentinel when that text is longer
  than 100 characters; no retained item, no result.
\<close>

definition normalize_title :: "string \<Rightarrow> string" where
  "normalize_title raw = strip '' .,;:'' (collapse_ws raw)"

definition retained :: "toc_item \<Rightarrow> bool" where
  "retained item =
     (case item of (nesting, raw, page) \<Rightarrow>
        3 \<le> length (normalize_title raw) \<and> length (normalize_title raw) \<le> 150)"

definition entry_of :: "toc_item \<Rightarrow> heading" where
  "entry_of item =
     (case item of (nesting, raw, page) \<Rightarrow>
        \<lparr>level = (if nesting = 1 then H1 else if nesting = 2 then H2 else H3),
         htext = normalize_title raw, hpage = page\<rparr>)"

definition metadata_spec :: "toc_item list \<Rightarrow> result option" where
  "metadata_spec items =
     (case map entry_of (filter retained items) of
        [] \<Rightarrow> None
      | e # es \<Rightarrow>
          Some \<lparr>title = (if length (htext e) > 100 then ''Untitled Document'' else htext e),
                outline = e # es\<rparr>)"

subsection \<open>The decision table of the heading classification, in the specification's words\<close>

text \<open>
  The rows of the table in their order, each a condition and the level it gives, over
  \<open>sizeDiff = fragment.fontSize - bodyFontSize\<close>; the first row whose condition holds
  decides, and a fragment that no row accepts is not a heading.
\<close>

definition decision_table :: "frag \<Rightarrow> real \<Rightarrow> (bool \<times> level) list" where
  "decision_table blk body =
     (let sizeDiff = font_size blk - body;
          bold = ((font_flags blk AND 2 ^ 4) \<noteq> 0);
          numbering_prefix = re_match numbered_re (btext blk);
          chapter_prefix = re_match chapter_re (btext blk)
      in [(sizeDiff \<ge> 6, H1),
          (sizeDiff \<ge> 4, H2),
          (2 \<le> sizeDiff \<and> sizeDiff < 4 \<and> bold, H3),
          (bold \<and> (numbering_prefix \<or> chapter_prefix), H2),
          (numbering_prefix \<and> sizeDiff \<ge> 1, H3),
          (re_match h2_re (btext blk), H2),
          (re_match h3_re (btext blk), H3)])"

fun first_match :: "(bool \<times> 'a) list \<Rightarrow> 'a option" where
  "first_match [] = None"
| "first_match ((c, v) # rows) = (if c then Some v else first_match rows)"

subsection \<open>Example inputs\<close>

text \<open>A clock that starts at 100 and advances by one tenth at every reading.\<close>

definition steady_clock :: "nat \<Rightarrow> real" where
  "steady_clock k = 100 + real k / 10"

text \<open>A clock that stands still at 100.\<close>

definition still_clock :: "nat \<Rightarrow> real" where
  "still_clock k = 100"

text \<open>
  A console that encodes in ASCII: \<open>print\<close> raises \<open>UnicodeEncodeError\<close> when a string
  among the format arguments has a character above 127 (the other parts of the three
  messages are ASCII). And a path with such a character.
\<close>

definition spoken :: "message \<Rightarrow> string" where
  "spoken m =
     (case m of
        Info step_name elapsed max_runtime \<Rightarrow> step_name
      | Warning pdf_path \<Rightarrow> pdf_path
      | Error pdf_path exc \<Rightarrow> (case exc of Exception msg \<Rightarrow> pdf_path @ msg))"

definition ascii_console :: console where
  "ascii_console m =
     (if list_all (\<lambda>c. of_char c < (128 :: nat)) (spoken m) then None
      else Some (Exception ''UnicodeEncodeError''))"

definition cafe_pdf :: string where
  "cafe_pdf = ''caf'' @ [CHR 0xE9] @ ''.pdf''"

subsection \<open>The specification of LayoutStrategy's heading list, in its own words\<close>

text \<open>
  "Deduplicated by exact text, first occurrence kept": an entry stays when no entry before
  it has the same text.
\<close>

primrec keep_first :: "heading list \<Rightarrow> heading list" where
  "keep_first [] = []"
| "keep_first (h # hs) = h # filter (\<lambda>k. htext k \<noteq> htext h) (keep_first hs)"

text \<open>
  The heading a fragment stands for, if any: its text must have 3 to 150 characters, pass
  the artifact filter and be given a level by the classification.
\<close>

definition candidate :: "real \<Rightarrow> frag \<Rightarrow> heading option" where
  "candidate body blk =
     (let text = strip_ws (btext blk)
      in if length text < 3 \<or> length text > 150 \<or> is_artifact text then None
         else map_option (\<lambda>lvl. \<lparr>level = lvl, htext = text, hpage = bpage blk\<rparr>)
                (heading_level blk body))"

definition candidates :: "real \<Rightarrow> frag list \<Rightarrow> heading list" where
  "candidates body blks = List.map_filter (candidate body) blks"

text \<open>"Sorted by (page, text)": by page, and alphabetically by text within a page.\<close>

definition page_then_text :: "heading \<Rightarrow> heading \<Rightarrow> bool" where
  "page_then_text x y = (hpage x < hpage y \<or> (hpage x = hpage y \<and> htext x \<le> htext y))"

text \<open>
  The final cleanup: "re-normalizes whitespace/punctuation", keeps the texts that still
  have 3 characters or more, "and deduplicates again".
\<close>

definition clean_text :: "string \<Rightarrow> string" where
  "clean_text t = strip ''.,;:'' (collapse_ws t)"

definition cleaned :: "heading list \<Rightarrow> heading list" where
  "cleaned hs =
     List.map_filter
       (\<lambda>h. if 3 \<le> length (clean_text (htext h)) then Some (h\<lparr>htext := clean_text (htext h)\<rparr>)
            else None) hs"

subsection \<open>The invariants of the entry texts, in the specification's words\<close>

text \<open>
  "Never contains runs of whitespace": no two white space characters in a row. "Never has
  leading/trailing punctuation from \<open>{. , ; :}\<close>": the first and the last character are
  none of these four.
\<close>

fun has_ws_run :: "string \<Rightarrow> bool" where
  "has_ws_run (c # d # cs) = ((is_space c \<and> is_space d) \<or> has_ws_run (d # cs))"
| "has_ws_run cs = False"

definition normalized :: "string \<Rightarrow> bool" where
  "normalized t =
     (\<not> has_ws_run t \<and> t \<noteq> [] \<and> hd t \<notin> set ''.,;:'' \<and> last t \<notin> set ''.,;:'')"

subsection \<open>Example documents\<close>

text \<open>
  Two documents without bookmarks and without spans, for PatternStrategy: one page whose
  text is the line \<open>1.  Summary.\<close> (two spaces), and two pages that both have the text
  \<open>1. Introduction\<close>.
\<close>

definition summary_doc :: document where
  "summary_doc =
     \<lparr>get_toc = [], pages = [\<lparr>blocks = [], raw_text = ''1.  Summary.'' @ [CHR 0x0A]\<rparr>]\<rparr>"

definition twice_doc :: document where
  "twice_doc =
     \<lparr>get_toc = [],
      pages = [\<lparr>blocks = [], raw_text = ''1. Introduction'' @ [CHR 0x0A]\<rparr>,
               \<lparr>blocks = [], raw_text = ''1. Introduction'' @ [CHR 0x0A]\<rparr>]\<rparr>"

text \<open>
  A document with two bookmarks and one page: a heading set in 20 points, twice, the
  first time with a colon, and three spans of body text in 11 points.
\<close>

definition report_doc :: document where
  "report_doc =
     \<lparr>get_toc = [(1, ''Results:'', 1), (2, ''  Further   work. '', 1)],
      pages = [\<lparr>blocks = [TextBlock
                 [[\<lparr>span_text = ''Results:'', span_size = 20, span_flags = 16,
                     span_bbox = (72, 72, 200, 92)\<rparr>],
                  [\<lparr>span_text = ''Results'', span_size = 20, span_flags = 16,
                     span_bbox = (72, 100, 200, 120)\<rparr>],
                  [\<lparr>span_text = ''all went well'', span_size = 11, span_flags = 0,
                     span_bbox = (72, 130, 200, 141)\<rparr>,
                   \<lparr>span_text = ''and so on'', span_size = 11, span_flags = 0,
                     span_bbox = (72, 150, 200, 161)\<rparr>,
                   \<lparr>span_text = ''until the end'', span_size = 11, span_flags = 0,
                     span_bbox = (72, 170, 200, 181)\<rparr>]]],
                raw_text = ''Results:'' @ [CHR 0x0A]\<rparr>]\<rparr>"

section \<open>Properties\<close>

subsection \<open>The driver\<close>



lemma regex_stage_raises:
  assumes "time_left clock mr s = (t, s1)" and "1 < t" and "pat s1 = (Inl e, s2)"
  shows "regex_stage console clock mr path pat s = (Inl e, s2, [PatternStrategy])"
  using assms by (simp add: regex_stage_def)



lemma heuristic_stage_raises:
  assumes "time_left clock mr s = (t, s1)" and "5 < t" and "lay s1 = (Inl e, s2)"
  shows "heuristic_stage console clock mr path lay pat s = (Inl e, s2, [LayoutStrategy])"
  using assms by (simp add: heuristic_stage_def)


lemma try_body_raises:
  assumes "toc s = (Inl e, s1)"
  shows "try_body console clock mr path toc lay pat s = (Inl e, s1, [MetadataStrategy])"
  using assms by (simp add: try_body_def)



lemma handler_printed:
  "console (Error path exc) = None \<Longrightarrow> handler console path (Inl exc) = Inr error_sentinel"
  by (simp add: handler_def print_def)

lemma handler_escapes:
  "handler console path r = Inl e \<Longrightarrow> \<exists>exc. r = Inl exc \<and> console (Error path exc) = Some e"
  by (auto simp: handler_def print_def split: sum.splits option.splits)



subsection \<open>What leaves \<open>extract_outline\<close>\<close>

text \<open>
  An exception raised by a strategy, by \<open>_log_time\<close> or by the warning of line 34 reaches
  the handler. When the handler's message is printed, the run ends with
  \<open>{title: "Error in Processing", outline: []}\<close>, in the state the raising call left and
  with no further strategy called; and an exception leaves \<open>extract_outline\<close> only as
  raised by the \<open>print\<close> of line 37.
\<close>

lemma fault_caught:
  assumes "try_body console clock mr path toc lay pat (started clock s) = (Inl exc, s', tr)"
    and "console (Error path exc) = None"
  shows "extract_outline_with console clock mr path toc lay pat s = (Inr error_sentinel, s', tr)"
  using assms by (simp add: extract_outline_with_def handler_printed)

lemma fault_escapes:
  assumes "fst (extract_outline_with console clock mr path toc lay pat s) = Inl e"
  shows "\<exists>exc. fst (try_body console clock mr path toc lay pat (started clock s)) = Inl exc
           \<and> console (Error path exc) = Some e"
  using assms handler_escapes [of console path _ e]
  by (auto simp: extract_outline_with_def split: prod.splits)

text \<open>
  Claim C4 (fault atomicity), evaluated where it fails. The file \<open>cafe.pdf\<close>, written with
  an acute accent (the fourth character is U+00E9), does not open: \<open>fitz.open\<close> raises in the first strategy,
  with a message that holds the path. The console encodes in ASCII. The handler of line
  36 catches the exception, and its own \<open>print\<close> raises \<open>UnicodeEncodeError\<close>, which
  leaves \<open>extract_outline\<close>: no dictionary is returned. On a console that prints the
  message, the same run returns \<open>{title: "Error in Processing", outline: []}\<close>.
\<close>

theorem handler_print_escapes:
  "extract_outline ascii_console (\<lambda>k. 100 + real k) 10 cafe_pdf
       (Inl (Exception (''no such file: '' @ cafe_pdf))) fresh
     = (Inl (Exception ''UnicodeEncodeError''), \<lparr>start_time = Some 100, ticks = 1\<rparr>,
        [MetadataStrategy])
   \<and> extract_outline (\<lambda>m. None) (\<lambda>k. 100 + real k) 10 cafe_pdf
       (Inl (Exception (''no such file: '' @ cafe_pdf))) fresh
     = (Inr error_sentinel, \<lparr>start_time = Some 100, ticks = 1\<rparr>, [MetadataStrategy])"
  by (simp add: extract_outline_def extract_outline_with_def try_body_def extract_with_toc_def
      handler_def print_def ascii_console_def spoken_def cafe_pdf_def started_def fresh_def)

subsection \<open>Regular expressions over one character class\<close>

lemma matches_star_chr_Nil: "matches (Star (Chr p)) [] = [[]]"
  by simp

lemma matches_star_chr_Cons:
  "matches (Star (Chr p)) (c # cs) =
     (if p c then matches (Star (Chr p)) cs @ [c # cs] else [c # cs])"
  by simp

lemma matches_star_chr_hd:
  "matches (Star (Chr p)) s \<noteq> [] \<and> hd (matches (Star (Chr p)) s) = dropWhile p s"
proof (induction s)
  case Nil
  show ?case by (simp only: matches_star_chr_Nil) simp
next
  case (Cons c cs)
  then show ?case by (simp only: matches_star_chr_Cons) (simp del: matches.simps)
qed

lemma matches_plus_chr:
  "matches (Plus (Chr p)) s =
     (case s of [] \<Rightarrow> [] | c # cs \<Rightarrow> if p c then matches (Star (Chr p)) cs else [])"
  by (cases s) (simp_all add: Plus_def del: matches.simps(5))

lemma re_sub_spaces_Nil: "re_sub spaces1 repl [] = []"
  by (simp add: re_sub.simps [of _ _ "[]"] spaces1_def matches_plus_chr)

lemma re_sub_spaces_Cons:
  "re_sub spaces1 repl (c # cs) =
     (if is_space c then repl @ re_sub spaces1 repl (dropWhile is_space cs)
      else c # re_sub spaces1 repl cs)"
proof (cases "is_space c")
  case True
  obtain m ms where m: "matches (Star (Chr is_space)) cs = m # ms" "m = dropWhile is_space cs"
    using matches_star_chr_hd [of is_space cs]
    by (cases "matches (Star (Chr is_space)) cs") auto
  have "length m < length (c # cs)"
    using m(2) by (simp add: length_dropWhile_le less_Suc_eq_le)
  then show ?thesis
    using True m by (simp add: re_sub.simps [of _ _ "c # cs"] spaces1_def matches_plus_chr)
next
  case False
  then show ?thesis
    by (simp add: re_sub.simps [of _ _ "c # cs"] spaces1_def matches_plus_chr)
qed

lemma re_sub_spaces: "re_sub spaces1 '' '' s = collapse_ws s"
  by (induction s rule: collapse_ws.induct) (simp_all add: re_sub_spaces_Nil re_sub_spaces_Cons)

subsection \<open>MetadataStrategy\<close>

lemma toc_loop_eq: "toc_loop items acc = acc @ map entry_of (filter retained items)"
proof (induction items arbitrary: acc)
  case Nil
  then show ?case by simp
next
  case (Cons item items)
  obtain nesting raw page where item: "item = (nesting, raw, page)" by (cases item)
  show ?case
    using Cons.IH
    by (auto simp: item retained_def entry_of_def normalize_title_def re_sub_spaces Let_def)
qed

text \<open>
  Claim C2 (postcondition of MetadataStrategy). For every bookmark list, the strategy
  returns what the specification says: no result when the list is empty or when no item
  is retained; otherwise one entry for each retained item, in input order, with the
  normalized text (white space runs collapsed to one space, then the characters of
  \<open>" .,;:"\<close> stripped from both ends; kept when 3 to 150 characters long), the level
  H1 for nesting level 1, H2 for 2 and H3 for any other value, and the page unchanged;
  the title is the first entry's text, or \<open>"Untitled Document"\<close> when that text has
  more than 100 characters.
\<close>

theorem metadata_postcondition:
  "toc_outline doc = metadata_spec (get_toc doc)"
  by (cases "get_toc doc")
     (auto simp: toc_outline_def metadata_spec_def toc_loop_eq split: list.splits)

theorem metadata_postcondition_witness:
  "toc_outline \<lparr>get_toc = [(1, ''Intro'', 1), (2, ''  Background.. '', 2)], pages = []\<rparr> =
     Some \<lparr>title = ''Intro'',
           outline = [\<lparr>level = H1, htext = ''Intro'', hpage = 1\<rparr>,
                      \<lparr>level = H2, htext = ''Background'', hpage = 2\<rparr>]\<rparr>"
  using metadata_postcondition
    [of "\<lparr>get_toc = [(1, ''Intro'', 1), (2, ''  Background.. '', 2)], pages = []\<rparr>"]
  by (simp add: metadata_spec_def retained_def entry_of_def normalize_title_def strip_def
      is_space_def whitespace_def)

subsection \<open>Heading classification\<close>

text \<open>
  Claim C3 (decision table). \<open>_heading_level\<close> returns what the first matching row of
  the specification's table gives: \<open>sizeDiff \<ge> 6\<close> is H1; \<open>sizeDiff \<ge> 4\<close> is H2;
  \<open>2 \<le> sizeDiff < 4\<close> with bold is H3; bold with a numbering prefix or a
  Chapter/Section/Part prefix is H2; a numbering prefix with \<open>sizeDiff \<ge> 1\<close> is H3;
  a match of \<open>^\d+\.\s+[A-Z]\<close> is H2; a match of \<open>^\d+\.\d+\s+[A-Z]\<close> is H3; anything
  else is no heading. The bold fragment \<open>"1. Overview"\<close> of font size 18 on page 2, with
  body font size 12, is H1.
\<close>

theorem heading_level_table:
  "heading_level blk body = first_match (decision_table blk body)
   \<and> heading_level \<lparr>btext = ''1. Overview'', bpage = 2, font_size = 18, font_flags = 16,
                     bbox = bb\<rparr> 12 = Some H1"
  by (simp add: heading_level_def decision_table_def Let_def)

subsection \<open>LayoutStrategy: the result on a document without fragments\<close>

lemma scan_pages_no_spans:
  "\<forall>pg \<in> set pgs. page_spans pg = [] \<Longrightarrow>
     fst (scan_pages clock mr pgs n acc s) = acc"
proof (induction pgs arbitrary: n acc s)
  case Nil
  then show ?case by simp
next
  case (Cons pg pgs)
  then show ?case
    by (auto simp: page_blocks_def Let_def split: prod.splits)
qed

theorem layout_counterexample:
  "fst (extract_with_pymupdf steady_clock 10 (Inr \<lparr>get_toc = [], pages = []\<rparr>) fresh)
     = Inr (Some \<lparr>title = ''Untitled Document'', outline = []\<rparr>)
   \<and> fst (extract_with_pymupdf steady_clock 10 (Inr \<lparr>get_toc = [], pages = []\<rparr>) fresh)
     \<noteq> Inr None"
  by (simp add: extract_with_pymupdf_def extract_headings_multilayer_def clean_headings_def
      body_font_size_def extract_title_def)

text \<open>
  Claim C8, as amended. \<open>_extract_with_pymupdf\<close> has no \<open>return None\<close>: on a document
  that opens it returns a dictionary in every case. When the document engine yields no
  span at all, the dictionary is \<open>{title: "Untitled Document", outline: []}\<close>, an empty
  outline that the validator rejects.
\<close>

theorem layout_no_fragments:
  "fst (extract_with_pymupdf clock mr (Inr doc) s) \<noteq> Inr None
   \<and> ((\<forall>pg \<in> set (pages doc). page_spans pg = []) \<longrightarrow>
        fst (extract_with_pymupdf clock mr (Inr doc) s) = Inr (Some untitled_sentinel)
        \<and> \<not> validate_result (Some untitled_sentinel))"
proof -
  have "fst (extract_with_pymupdf clock mr (Inr doc) s) \<noteq> Inr None"
    by (simp add: extract_with_pymupdf_def Let_def split: prod.splits)
  moreover have "fst (extract_with_pymupdf clock mr (Inr doc) s) = Inr (Some untitled_sentinel)"
    if "\<forall>pg \<in> set (pages doc). page_spans pg = []"
  proof -
    have "\<forall>pg \<in> set (take 50 (pages doc)). page_spans pg = []"
      using that by (meson in_set_takeD)
    then have "fst (scan_pages clock mr (take 50 (pages doc)) 0 [] s) = []"
      by (rule scan_pages_no_spans)
    then show ?thesis
      by (auto simp: extract_with_pymupdf_def extract_headings_multilayer_def
          clean_headings_def body_font_size_def extract_title_def untitled_sentinel_def
          split: prod.splits)
  qed
  moreover have "\<not> validate_result (Some untitled_sentinel)"
    by (simp add: validate_result_def untitled_sentinel_def)
  ultimately show ?thesis by blast
qed

theorem layout_no_fragments_witness:
  "page_spans \<lparr>blocks = [ImageBlock], raw_text = ''''\<rparr> = []
   \<and> fst (extract_with_pymupdf steady_clock 10
        (Inr \<lparr>get_toc = [], pages = [\<lparr>blocks = [ImageBlock], raw_text = ''''\<rparr>]\<rparr>) fresh)
      = Inr (Some untitled_sentinel)"
  using layout_no_fragments [of steady_clock 10
      "\<lparr>get_toc = [], pages = [\<lparr>blocks = [ImageBlock], raw_text = ''''\<rparr>]\<rparr>" fresh]
  by (simp add: page_spans_def)

subsection \<open>LayoutStrategy: the body font size\<close>

lemma body_font_size_no_positive:
  "\<forall>b \<in> set all_blocks. font_size b \<le> 0 \<Longrightarrow> body_font_size all_blocks = 12"
proof -
  assume "\<forall>b \<in> set all_blocks. font_size b \<le> 0"
  then have "filter (\<lambda>b. font_size b > 0) all_blocks = []"
    by (auto simp: filter_empty_conv)
  then show ?thesis by (simp add: body_font_size_def)
qed

text \<open>
  Claim C7 (body font size), evaluated where it fails. Two fragments on one page, of font
  sizes 10 and 14: the positive sizes have no unique mode (each occurs once), and the
  claim asks for the body font size 12. \<open>statistics.mode\<close> does not raise on such
  data; it returns the value met first, so the \<open>except\<close> branch is not taken and the
  body font size is 10.
\<close>

theorem body_font_size_multimodal:
  "body_font_size
     [\<lparr>btext = ''Annual Report'', bpage = 1, font_size = 10, font_flags = 0,
        bbox = (72, 72, 300, 90)\<rparr>,
      \<lparr>btext = ''Introduction'', bpage = 1, font_size = 14, font_flags = 0,
        bbox = (72, 120, 300, 140)\<rparr>] = 10"
  by (simp add: body_font_size_def mode_def first_seen_def)

subsection \<open>LayoutStrategy: deduplication and order of the headings\<close>

lemma set_keep_first: "set (keep_first hs) \<subseteq> set hs"
  by (induction hs) auto

lemma keep_first_texts: "htext ` set (keep_first hs) = htext ` set hs"
proof (induction hs)
  case Nil
  then show ?case by simp
next
  case (Cons h hs)
  have "htext ` set (filter (\<lambda>k. htext k \<noteq> htext h) (keep_first hs))
          = htext ` set (keep_first hs) - {htext h}"
    by auto
  then show ?case using Cons by auto
qed

lemma distinct_keep_first: "distinct (map htext (keep_first hs))"
proof (induction hs)
  case Nil
  then show ?case by simp
next
  case (Cons h hs)
  have "distinct (map htext (filter (\<lambda>k. htext k \<noteq> htext h) (keep_first hs)))"
    using Cons by (rule distinct_map_filter)
  then show ?case by auto
qed

lemma filter_seen_absorb:
  "t \<in> seen \<Longrightarrow>
     filter (\<lambda>k. htext k \<noteq> t \<and> htext k \<notin> seen) hs = filter (\<lambda>k. htext k \<notin> seen) hs"
  by (rule filter_cong) auto

lemma candidates_Nil: "candidates body [] = []"
  by (simp add: candidates_def map_filter_simps)

lemma candidates_Cons:
  "candidates body (b # bs) =
     (case candidate body b of None \<Rightarrow> candidates body bs | Some h \<Rightarrow> h # candidates body bs)"
  by (simp add: candidates_def map_filter_simps split: option.split)

lemma candidate_Some:
  "candidate body b = Some h \<Longrightarrow>
     htext h = strip_ws (btext b) \<and> \<not> length (strip_ws (btext b)) < 3 \<and>
     \<not> length (strip_ws (btext b)) > 150 \<and> \<not> is_artifact (strip_ws (btext b)) \<and>
     heading_level b body = Some (level h) \<and> hpage h = bpage b"
  by (auto simp: candidate_def Let_def split: if_splits)

lemma candidate_None:
  "candidate body b = None \<longleftrightarrow>
     length (strip_ws (btext b)) < 3 \<or> length (strip_ws (btext b)) > 150 \<or>
     is_artifact (strip_ws (btext b)) \<or> heading_level b body = None"
  by (auto simp: candidate_def Let_def)

text \<open>One iteration of the loop, in the three ways it can go.\<close>

lemma headings_loop_skip:
  assumes "strip_ws (btext b) \<in> seen \<or> length (strip_ws (btext b)) < 3 \<or>
           length (strip_ws (btext b)) > 150 \<or> is_artifact (strip_ws (btext b))"
  shows "headings_loop clock mr body (b # blks) hs seen s =
           headings_loop clock mr body blks hs seen s"
  using assms by (simp add: Let_def)

lemma headings_loop_cut:
  assumes "\<not> (strip_ws (btext b) \<in> seen \<or> length (strip_ws (btext b)) < 3 \<or>
           length (strip_ws (btext b)) > 150 \<or> is_artifact (strip_ws (btext b)))"
    and "time_left clock mr s = (t, s')" and "t < 0.2"
  shows "fst (headings_loop clock mr body (b # blks) hs seen s) =
           (case candidate body b of None \<Rightarrow> hs | Some h \<Rightarrow> hs @ [h])"
  using assms by (simp add: Let_def candidate_def split: option.split)

lemma headings_loop_go:
  assumes "\<not> (strip_ws (btext b) \<in> seen \<or> length (strip_ws (btext b)) < 3 \<or>
           length (strip_ws (btext b)) > 150 \<or> is_artifact (strip_ws (btext b)))"
    and "time_left clock mr s = (t, s')" and "\<not> t < 0.2"
  shows "headings_loop clock mr body (b # blks) hs seen s =
           (case candidate body b of
              None \<Rightarrow> headings_loop clock mr body blks hs seen s'
            | Some h \<Rightarrow> headings_loop clock mr body blks (hs @ [h]) (insert (htext h) seen) s')"
  using assms by (simp add: Let_def candidate_def split: option.split)

lemma keep_first_step_seen:
  assumes "\<And>h. candidate body b = Some h \<Longrightarrow> htext h \<in> seen"
  shows "filter (\<lambda>k. htext k \<notin> seen) (keep_first (candidates body (b # bs)))
           = filter (\<lambda>k. htext k \<notin> seen) (keep_first (candidates body bs))"
proof (cases "candidate body b")
  case None
  then show ?thesis by (simp add: candidates_Cons)
next
  case (Some h)
  then have "htext h \<in> seen" by (rule assms)
  then show ?thesis
    using Some by (simp add: candidates_Cons filter_seen_absorb)
qed

lemma keep_first_step_new:
  assumes "candidate body b = Some h" and "htext h \<notin> seen"
  shows "filter (\<lambda>k. htext k \<notin> seen) (keep_first (candidates body (b # bs)))
           = h # filter (\<lambda>k. htext k \<notin> insert (htext h) seen) (keep_first (candidates body bs))"
  using assms by (simp add: candidates_Cons)

lemma headings_loop_spec:
  "\<exists>n \<le> length blks.
     fst (headings_loop clock mr body blks hs seen s) =
       hs @ filter (\<lambda>k. htext k \<notin> seen) (keep_first (candidates body (take n blks)))"
proof (induction blks arbitrary: hs seen s)
  case Nil
  then show ?case by (simp add: candidates_Nil)
next
  case (Cons b blks)
  let ?text = "strip_ws (btext b)"
  let ?skip = "?text \<in> seen \<or> length ?text < 3 \<or> length ?text > 150 \<or> is_artifact ?text"
  show ?case
  proof (cases ?skip)
    case True
    from Cons [of hs seen s] obtain n where n: "n \<le> length blks"
      "fst (headings_loop clock mr body blks hs seen s) =
         hs @ filter (\<lambda>k. htext k \<notin> seen) (keep_first (candidates body (take n blks)))"
      by blast
    have "htext h \<in> seen" if "candidate body b = Some h" for h
      using True candidate_Some [OF that] by auto
    then have "filter (\<lambda>k. htext k \<notin> seen) (keep_first (candidates body (b # take n blks)))
        = filter (\<lambda>k. htext k \<notin> seen) (keep_first (candidates body (take n blks)))"
      by (rule keep_first_step_seen)
    then have "fst (headings_loop clock mr body (b # blks) hs seen s) =
        hs @ filter (\<lambda>k. htext k \<notin> seen) (keep_first (candidates body (take (Suc n) (b # blks))))"
      using n(2) headings_loop_skip [OF True] by simp
    with n(1) show ?thesis by (intro exI [of _ "Suc n"]) simp
  next
    case False
    obtain t s' where tl: "time_left clock mr s = (t, s')"
      by (cases "time_left clock mr s")
    show ?thesis
    proof (cases "t < 0.2")
      case True
      note cut = headings_loop_cut [OF False tl True, of body blks hs]
      show ?thesis
      proof (cases "candidate body b")
        case None
        then have "fst (headings_loop clock mr body (b # blks) hs seen s) =
            hs @ filter (\<lambda>k. htext k \<notin> seen) (keep_first (candidates body (take 0 (b # blks))))"
          using cut by (simp add: candidates_Nil)
        then show ?thesis by (intro exI [of _ 0]) simp
      next
        case (Some h)
        then have "htext h \<notin> seen" using False candidate_Some [OF Some] by simp
        then have "fst (headings_loop clock mr body (b # blks) hs seen s) =
            hs @ filter (\<lambda>k. htext k \<notin> seen)
                   (keep_first (candidates body (take (Suc 0) (b # blks))))"
          using cut Some by (simp add: candidates_Cons candidates_Nil)
        then show ?thesis by (intro exI [of _ "Suc 0"]) simp
      qed
    next
      case nocut: False
      note go = headings_loop_go [OF False tl nocut, of body blks hs]
      show ?thesis
      proof (cases "candidate body b")
        case None
        from Cons [of hs seen s'] obtain n where n: "n \<le> length blks"
          "fst (headings_loop clock mr body blks hs seen s') =
             hs @ filter (\<lambda>k. htext k \<notin> seen) (keep_first (candidates body (take n blks)))"
          by blast
        have "fst (headings_loop clock mr body (b # blks) hs seen s) =
            hs @ filter (\<lambda>k. htext k \<notin> seen)
                   (keep_first (candidates body (take (Suc n) (b # blks))))"
          using go None n(2) by (simp add: candidates_Cons)
        with n(1) show ?thesis by (intro exI [of _ "Suc n"]) simp
      next
        case (Some h)
        then have new: "htext h \<notin> seen" using False candidate_Some [OF Some] by simp
        from Cons [of "hs @ [h]" "insert (htext h) seen" s'] obtain n where n: "n \<le> length blks"
          "fst (headings_loop clock mr body blks (hs @ [h]) (insert (htext h) seen) s') =
             (hs @ [h]) @ filter (\<lambda>k. htext k \<notin> insert (htext h) seen)
                             (keep_first (candidates body (take n blks)))"
          by blast
        have "fst (headings_loop clock mr body (b # blks) hs seen s) =
            hs @ filter (\<lambda>k. htext k \<notin> seen)
                   (keep_first (candidates body (take (Suc n) (b # blks))))"
          using go Some n(2) keep_first_step_new [OF Some new, of "take n blks"] by simp
        with n(1) show ?thesis by (intro exI [of _ "Suc n"]) simp
      qed
    qed
  qed
qed

lemma time_left_ticks:
  "time_left clock mr s = (t, s') \<Longrightarrow> s'\<lparr>ticks := k\<rparr> = s\<lparr>ticks := k\<rparr>"
  by (auto simp: time_left_def split: option.splits if_splits)

lemma headings_loop_unhurried:
  assumes "\<forall>k. 0.2 \<le> fst (time_left clock mr (s\<lparr>ticks := k\<rparr>))"
  shows "fst (headings_loop clock mr body blks hs seen s) =
           hs @ filter (\<lambda>k. htext k \<notin> seen) (keep_first (candidates body blks))"
  using assms
proof (induction blks arbitrary: hs seen s)
  case Nil
  then show ?case by (simp add: candidates_Nil)
next
  case (Cons b blks)
  let ?text = "strip_ws (btext b)"
  let ?skip = "?text \<in> seen \<or> length ?text < 3 \<or> length ?text > 150 \<or> is_artifact ?text"
  obtain t s' where tl: "time_left clock mr s = (t, s')"
    by (cases "time_left clock mr s")
  have "0.2 \<le> fst (time_left clock mr (s\<lparr>ticks := ticks s\<rparr>))"
    using Cons.prems by blast
  then have nocut: "\<not> t < 0.2"
    using tl by simp
  have later: "\<forall>k. 0.2 \<le> fst (time_left clock mr (s'\<lparr>ticks := k\<rparr>))"
    using Cons.prems time_left_ticks [OF tl] by simp
  show ?case
  proof (cases ?skip)
    case True
    have "htext h \<in> seen" if "candidate body b = Some h" for h
      using True candidate_Some [OF that] by auto
    then have "filter (\<lambda>k. htext k \<notin> seen) (keep_first (candidates body (b # blks)))
        = filter (\<lambda>k. htext k \<notin> seen) (keep_first (candidates body blks))"
      by (rule keep_first_step_seen)
    then show ?thesis
      using Cons.IH [OF Cons.prems, of hs seen] headings_loop_skip [OF True] by simp
  next
    case False
    note go = headings_loop_go [OF False tl nocut, of body blks hs]
    show ?thesis
    proof (cases "candidate body b")
      case None
      then show ?thesis
        using go Cons.IH [OF later, of hs seen] by (simp add: candidates_Cons)
    next
      case (Some h)
      then have new: "htext h \<notin> seen" using False candidate_Some [OF Some] by simp
      show ?thesis
        using go Some Cons.IH [OF later, of "hs @ [h]" "insert (htext h) seen"]
          keep_first_step_new [OF Some new, of blks] by simp
    qed
  qed
qed

lemma page_then_text_key:
  "page_then_text = (\<lambda>x y. (hpage x, htext x) \<le> (hpage y, htext y))"
  by (intro ext) (auto simp: page_then_text_def less_eq_prod_def)

lemma sorted_page_then_text:
  "sorted_wrt page_then_text (sort_key (\<lambda>x. (hpage x, htext x)) hs)"
proof -
  have "sorted (map (\<lambda>x. (hpage x, htext x)) (sort_key (\<lambda>x. (hpage x, htext x)) hs))"
    by (rule sorted_sort_key)
  then show ?thesis
    by (simp only: sorted_map page_then_text_key)
qed

lemma clean_loop_spec:
  "clean_loop hs acc seen = acc @ filter (\<lambda>k. htext k \<notin> seen) (keep_first (cleaned hs))"
proof (induction hs arbitrary: acc seen)
  case Nil
  then show ?case by (simp add: cleaned_def)
next
  case (Cons h hs)
  let ?t = "clean_text (htext h)"
  have t: "strip ''.,;:'' (re_sub spaces1 '' '' (htext h)) = ?t"
    by (simp add: clean_text_def re_sub_spaces)
  have step: "cleaned (h # hs) =
      (if 3 \<le> length ?t then h\<lparr>htext := ?t\<rparr> # cleaned hs else cleaned hs)"
    by (simp add: cleaned_def)
  show ?case
  proof (cases "?t \<noteq> [] \<and> ?t \<notin> seen \<and> length ?t \<ge> 3")
    case True
    then have "clean_loop (h # hs) acc seen =
        clean_loop hs (acc @ [h\<lparr>htext := ?t\<rparr>]) (insert ?t seen)"
      by (simp add: t Let_def)
    then show ?thesis
      using True Cons [of "acc @ [h\<lparr>htext := ?t\<rparr>]" "insert ?t seen"]
      by (simp add: step)
  next
    case False
    then have loop: "clean_loop (h # hs) acc seen = clean_loop hs acc seen"
      by (auto simp: t Let_def)
    show ?thesis
    proof (cases "3 \<le> length ?t")
      case short: False
      then show ?thesis using loop Cons [of acc seen] by (simp add: step)
    next
      case True
      then have "?t \<in> seen" using False by auto
      then show ?thesis
        using loop Cons [of acc seen] True by (simp add: step filter_seen_absorb)
    qed
  qed
qed

lemma clean_headings_spec: "clean_headings hs = keep_first (cleaned hs)"
  by (simp add: clean_headings_def clean_loop_spec)

text \<open>
  Claim C9 (order of LayoutStrategy's output). The loop of
  \<open>_extract_headings_multilayer\<close> looks at the first \<open>n\<close> fragments (all of them unless
  the clock stops it) and accepts their headings without those whose text an earlier
  accepted heading has: the accepted texts are distinct, the first occurrence stays. The
  accepted headings are then put in non-decreasing order of \<open>(page, text)\<close>, that is by
  page and, within a page, alphabetically by text, whatever their order on the page was;
  the sorted list is a rearrangement of the accepted one. Only then the cleanup pass runs,
  which normalizes each text again and again keeps the first occurrence of each text.
  When the clock never leaves less than 0.2, \<open>n\<close> is the number of fragments.
\<close>

theorem layout_ordering:
  "\<exists>n \<le> length blks.
     (let accepted = keep_first (candidates body (take n blks));
          ordered = sort_key (\<lambda>x. (hpage x, htext x)) accepted
      in fst (extract_headings_multilayer clock mr blks body s) = keep_first (cleaned ordered)
         \<and> distinct (map htext accepted)
         \<and> sorted_wrt page_then_text ordered
         \<and> mset ordered = mset accepted)
     \<and> ((\<forall>k. 0.2 \<le> fst (time_left clock mr (s\<lparr>ticks := k\<rparr>))) \<longrightarrow> n = length blks)"
proof -
  have run: "fst (extract_headings_multilayer clock mr blks body s) =
      keep_first (cleaned (sort_key (\<lambda>x. (hpage x, htext x))
         (fst (headings_loop clock mr body blks [] {} s))))"
    by (simp add: extract_headings_multilayer_def clean_headings_spec split: prod.splits)
  have props: "distinct (map htext (keep_first cs))
      \<and> sorted_wrt page_then_text (sort_key (\<lambda>x. (hpage x, htext x)) (keep_first cs))
      \<and> mset (sort_key (\<lambda>x. (hpage x, htext x)) (keep_first cs)) = mset (keep_first cs)" for cs
    by (simp add: distinct_keep_first sorted_page_then_text)
  show ?thesis
  proof (cases "\<forall>k. 0.2 \<le> fst (time_left clock mr (s\<lparr>ticks := k\<rparr>))")
    case True
    then have "fst (headings_loop clock mr body blks [] {} s) = keep_first (candidates body blks)"
      using headings_loop_unhurried [of clock mr s body blks "[]" "{}"] by simp
    then show ?thesis
      using run props [of "candidates body blks"]
      by (intro exI [of _ "length blks"]) (simp add: Let_def)
  next
    case False
    obtain n where n: "n \<le> length blks"
      "fst (headings_loop clock mr body blks [] {} s) = keep_first (candidates body (take n blks))"
      using headings_loop_spec [of blks clock mr body "[]" "{}" s] by auto
    have last: "(\<forall>k. 0.2 \<le> fst (time_left clock mr (s\<lparr>ticks := k\<rparr>))) \<longrightarrow> n = length blks"
      using False by blast
    show ?thesis
      using run n props [of "candidates body (take n blks)"]
      by (intro exI [of _ n] conjI last) (simp_all add: Let_def)
  qed
qed

theorem layout_ordering_witness:
  "fst (extract_headings_multilayer still_clock 10
     [\<lparr>btext = ''Zebra Crossing'', bpage = 1, font_size = 20, font_flags = 0,
        bbox = (72, 100, 300, 120)\<rparr>,
      \<lparr>btext = ''Alpha Centauri'', bpage = 1, font_size = 20, font_flags = 0,
        bbox = (72, 400, 300, 420)\<rparr>]
     12 \<lparr>start_time = Some 100, ticks = 1\<rparr>)
   = [\<lparr>level = H1, htext = ''Alpha Centauri'', hpage = 1\<rparr>,
      \<lparr>level = H1, htext = ''Zebra Crossing'', hpage = 1\<rparr>]"
proof -
  define blks where "blks =
     [\<lparr>btext = ''Zebra Crossing'', bpage = 1, font_size = 20, font_flags = 0,
        bbox = (72 :: real, 100 :: real, 300 :: real, 120 :: real)\<rparr>,
      \<lparr>btext = ''Alpha Centauri'', bpage = 1, font_size = 20, font_flags = 0,
        bbox = (72, 400, 300, 420)\<rparr>]"
  define s where "s = \<lparr>start_time = Some (100 :: real), ticks = 1\<rparr>"
  have unhurried: "\<forall>k. 0.2 \<le> fst (time_left still_clock 10 (s\<lparr>ticks := k\<rparr>))"
    by (simp add: s_def time_left_def still_clock_def)
  have accepted: "keep_first (candidates 12 blks) =
      [\<lparr>level = H1, htext = ''Zebra Crossing'', hpage = 1\<rparr>,
       \<lparr>level = H1, htext = ''Alpha Centauri'', hpage = 1\<rparr>]"
    unfolding blks_def by code_simp
  have cleaned: "keep_first (cleaned (sort_key (\<lambda>x. (hpage x, htext x))
       [\<lparr>level = H1, htext = ''Zebra Crossing'', hpage = 1\<rparr>,
        \<lparr>level = H1, htext = ''Alpha Centauri'', hpage = 1\<rparr>])) =
      [\<lparr>level = H1, htext = ''Alpha Centauri'', hpage = 1\<rparr>,
       \<lparr>level = H1, htext = ''Zebra Crossing'', hpage = 1\<rparr>]"
    by (simp add: cleaned_def clean_text_def strip_def is_space_def whitespace_def
        less_eq_prod_def)
  from layout_ordering [of blks 12 still_clock 10 s] obtain n where
    run: "fst (extract_headings_multilayer still_clock 10 blks 12 s) =
       keep_first (cleaned (sort_key (\<lambda>x. (hpage x, htext x))
         (keep_first (candidates 12 (take n blks)))))"
    and all: "(\<forall>k. 0.2 \<le> fst (time_left still_clock 10 (s\<lparr>ticks := k\<rparr>))) \<longrightarrow> n = length blks"
    unfolding Let_def by blast
  have "n = length blks"
    using all unhurried by blast
  then have "take n blks = blks"
    by simp
  then have "fst (extract_headings_multilayer still_clock 10 blks 12 s) =
      [\<lparr>level = H1, htext = ''Alpha Centauri'', hpage = 1\<rparr>,
       \<lparr>level = H1, htext = ''Zebra Crossing'', hpage = 1\<rparr>]"
    using run by (simp only: accepted cleaned)
  then show ?thesis
    unfolding blks_def s_def .
qed

subsection \<open>Normalized entry texts\<close>

lemma has_ws_run_tail: "has_ws_run zs \<Longrightarrow> has_ws_run (x # zs)"
  by (cases zs) simp_all

lemma has_ws_run_head:
  "has_ws_run (c # zs) \<Longrightarrow>
     has_ws_run zs \<or> (\<exists>d ds. zs = d # ds \<and> is_space c \<and> is_space d)"
  by (cases zs) auto

lemma has_ws_run_append_left: "has_ws_run xs \<Longrightarrow> has_ws_run (xs @ ys)"
  by (induction xs rule: has_ws_run.induct) auto

lemma has_ws_run_append_right: "has_ws_run ys \<Longrightarrow> has_ws_run (xs @ ys)"
  by (induction xs) (simp_all add: has_ws_run_tail)

lemma collapse_ws_space_hd:
  "collapse_ws s = c # cs \<Longrightarrow> is_space c \<Longrightarrow> \<exists>d ds. s = d # ds \<and> is_space d"
  by (cases s) (auto split: if_splits)

lemma no_ws_run_collapse: "\<not> has_ws_run (collapse_ws s)"
proof (induction s rule: collapse_ws.induct)
  case 1
  show ?case by simp
next
  case (2 c cs)
  show ?case
  proof (cases "is_space c")
    case True
    define X where "X = collapse_ws (dropWhile is_space cs)"
    have X: "\<not> has_ws_run X"
      using 2(1) True by (simp add: X_def)
    have "\<not> is_space d" if Xd: "X = d # ds" for d ds
    proof
      assume "is_space d"
      then obtain e es where e: "dropWhile is_space cs = e # es" "is_space e"
        using collapse_ws_space_hd [of "dropWhile is_space cs" d ds] Xd
        unfolding X_def by blast
      have "\<not> is_space (hd (dropWhile is_space cs))"
        by (rule hd_dropWhile) (simp add: e(1))
      then show False
        using e by simp
    qed
    then have "\<not> has_ws_run (CHR '' '' # X)"
      using X has_ws_run_head [of "CHR '' ''" X] by blast
    then show ?thesis
      using True by (simp add: X_def)
  next
    case False
    define X where "X = collapse_ws cs"
    have "\<not> has_ws_run X"
      using 2(2) False by (simp add: X_def)
    then have "\<not> has_ws_run (c # X)"
      using False has_ws_run_head [of c X] by blast
    then show ?thesis
      using False by (simp add: X_def)
  qed
qed

lemma no_ws_run_dropWhile: "\<not> has_ws_run s \<Longrightarrow> \<not> has_ws_run (dropWhile P s)"
  using has_ws_run_append_right [of "dropWhile P s" "takeWhile P s"] by auto

lemma rev_dropWhile_rev: "rev (dropWhile P (rev t)) @ rev (takeWhile P (rev t)) = t"
proof -
  have "rev (takeWhile P (rev t) @ dropWhile P (rev t)) = t"
    by simp
  then show ?thesis
    by (simp only: rev_append)
qed

lemma no_ws_run_dropWhile_end:
  "\<not> has_ws_run t \<Longrightarrow> \<not> has_ws_run (rev (dropWhile P (rev t)))"
  using has_ws_run_append_left [of "rev (dropWhile P (rev t))" "rev (takeWhile P (rev t))"]
  by (simp only: rev_dropWhile_rev) blast

lemma no_ws_run_strip: "\<not> has_ws_run s \<Longrightarrow> \<not> has_ws_run (strip cs s)"
  unfolding strip_def by (intro no_ws_run_dropWhile_end no_ws_run_dropWhile)

lemma dropWhile_end_ends:
  assumes "rev (dropWhile P (rev t)) \<noteq> []"
  shows "hd (rev (dropWhile P (rev t))) = hd t \<and> \<not> P (last (rev (dropWhile P (rev t))))"
proof -
  define u where "u = dropWhile P (rev t)"
  have u: "u \<noteq> []"
    using assms by (simp add: u_def)
  have "t \<noteq> []"
  proof
    assume "t = []"
    then have "u = []" by (simp add: u_def)
    with u show False ..
  qed
  then have "hd t = last (rev t)"
    by (simp add: last_rev)
  also have "rev t = takeWhile P (rev t) @ u"
    by (simp add: u_def)
  also have "last (takeWhile P (rev t) @ u) = last u"
    using u by simp
  also have "last u = hd (rev u)"
    using u by (simp add: hd_rev)
  finally have "hd (rev u) = hd t"
    by simp
  moreover have "\<not> P (hd u)"
    using u unfolding u_def by (rule hd_dropWhile)
  then have "\<not> P (last (rev u))"
    using u by (simp add: last_rev)
  ultimately show ?thesis
    by (simp add: u_def)
qed

lemma strip_ends:
  assumes "strip cs s \<noteq> []"
  shows "hd (strip cs s) \<notin> set cs \<and> last (strip cs s) \<notin> set cs"
proof -
  define t where "t = dropWhile (\<lambda>c. c \<in> set cs) s"
  have eq: "strip cs s = rev (dropWhile (\<lambda>c. c \<in> set cs) (rev t))"
    by (simp add: strip_def t_def)
  have ends: "hd (strip cs s) = hd t \<and> last (strip cs s) \<notin> set cs"
    using assms dropWhile_end_ends [of "\<lambda>c. c \<in> set cs" t] by (simp only: eq) blast
  have "t \<noteq> []"
  proof
    assume "t = []"
    then have "strip cs s = []" by (simp add: eq)
    with assms show False ..
  qed
  then have "hd t \<notin> set cs"
    unfolding t_def by (rule hd_dropWhile)
  then show ?thesis
    using ends by simp
qed

lemma normalized_strip_collapse:
  assumes "set ''.,;:'' \<subseteq> set cs" and "strip cs (collapse_ws t) \<noteq> []"
  shows "normalized (strip cs (collapse_ws t))"
proof -
  have "\<not> has_ws_run (strip cs (collapse_ws t))"
    by (rule no_ws_run_strip) (rule no_ws_run_collapse)
  moreover have "hd (strip cs (collapse_ws t)) \<notin> set cs \<and> last (strip cs (collapse_ws t)) \<notin> set cs"
    using assms(2) by (rule strip_ends)
  ultimately show ?thesis
    unfolding normalized_def using assms by blast
qed

lemma toc_entries_normalized:
  assumes "h \<in> set (map entry_of (filter retained items))"
  shows "normalized (htext h)"
proof -
  obtain nesting raw page where item: "(nesting, raw, page) \<in> set items"
    "retained (nesting, raw, page)" "h = entry_of (nesting, raw, page)"
    using assms by auto
  have "strip '' .,;:'' (collapse_ws raw) \<noteq> []"
    using item(2) by (auto simp: retained_def normalize_title_def)
  then have "normalized (strip '' .,;:'' (collapse_ws raw))"
    by (intro normalized_strip_collapse) auto
  then show ?thesis
    by (simp add: item(3) entry_of_def normalize_title_def)
qed

lemma toc_outline_entries:
  "toc_outline doc = Some r \<Longrightarrow> outline r = map entry_of (filter retained (get_toc doc))"
  by (auto simp: toc_outline_def toc_loop_eq split: if_splits list.splits)

lemma cleaned_normalized:
  assumes "h \<in> set (cleaned hs)"
  shows "normalized (htext h)"
proof -
  obtain k where k: "3 \<le> length (clean_text (htext k))" "h = k\<lparr>htext := clean_text (htext k)\<rparr>"
    using assms by (auto simp: cleaned_def List.map_filter_def split: if_splits)
  have "strip ''.,;:'' (collapse_ws (htext k)) \<noteq> []"
    using k(1) by (auto simp: clean_text_def)
  then have "normalized (strip ''.,;:'' (collapse_ws (htext k)))"
    by (intro normalized_strip_collapse) auto
  then show ?thesis
    by (simp add: k(2) clean_text_def)
qed

lemma extract_headings_clean:
  "\<exists>hs. fst (extract_headings_multilayer clock mr blks body s) = clean_headings hs"
  by (cases "headings_loop clock mr body blks [] {} s")
     (simp add: extract_headings_multilayer_def, blast)

lemma layout_outline:
  assumes "extract_with_pymupdf clock mr opened s = (Inr (Some r), s')"
  shows "\<exists>hs. outline r = clean_headings hs"
proof (cases opened)
  case (Inl e)
  then show ?thesis
    using assms by (simp add: extract_with_pymupdf_def)
next
  case (Inr doc)
  obtain ab s1 where sp: "scan_pages clock mr (take 50 (pages doc)) 0 [] s = (ab, s1)"
    by (cases "scan_pages clock mr (take 50 (pages doc)) 0 [] s") blast
  obtain hs s2 where eh:
    "extract_headings_multilayer clock mr ab (body_font_size ab) s1 = (hs, s2)"
    by (cases "extract_headings_multilayer clock mr ab (body_font_size ab) s1") blast
  have "outline r = hs"
    using assms by (auto simp: extract_with_pymupdf_def Inr sp eh Let_def)
  moreover have "\<exists>ks. hs = clean_headings ks"
    using extract_headings_clean [of clock mr ab "body_font_size ab" s1] by (simp add: eh)
  ultimately show ?thesis
    by simp
qed

subsection \<open>The example documents, evaluated\<close>

lemma summary_doc_pattern:
  "regex_outline summary_doc =
     \<lparr>title = ''Untitled Document'',
      outline = [\<lparr>level = H3, htext = ''1.  Summary.'', hpage = 1\<rparr>]\<rparr>"
  by code_simp

lemma twice_doc_pattern:
  "regex_outline twice_doc =
     \<lparr>title = ''Introduction'',
      outline = [\<lparr>level = H2, htext = ''1. Introduction'', hpage = 1\<rparr>,
                 \<lparr>level = H2, htext = ''1. Introduction'', hpage = 2\<rparr>]\<rparr>"
  by code_simp

lemma report_doc_toc:
  "extract_with_toc (Inr report_doc) \<lparr>start_time = Some 100, ticks = 1\<rparr> =
     (Inr (Some \<lparr>title = ''Results'',
                 outline = [\<lparr>level = H1, htext = ''Results'', hpage = 1\<rparr>,
                            \<lparr>level = H2, htext = ''Further work'', hpage = 1\<rparr>]\<rparr>),
      \<lparr>start_time = Some 100, ticks = 1\<rparr>)"
  by code_simp

lemma report_doc_layout:
  "extract_with_pymupdf still_clock 10 (Inr report_doc) \<lparr>start_time = Some 100, ticks = 1\<rparr> =
     (Inr (Some \<lparr>title = ''Results:'',
                 outline = [\<lparr>level = H1, htext = ''Results'', hpage = 1\<rparr>]\<rparr>),
      \<lparr>start_time = Some 100, ticks = 7\<rparr>)"
  by code_simp

subsection \<open>The invariants of the entry texts\<close>

text \<open>
  PatternStrategy on the one-page document with the text \<open>1.  Summary.\<close>: the entry has
  the matched text with white space stripped from its ends and nothing else done to it;
  two spaces in a row and the full stop at the end are still there.
\<close>

theorem pattern_text_counterexample:
  "fst (extract_with_regex_fallback (Inr summary_doc) fresh) =
     Inr (Some \<lparr>title = ''Untitled Document'',
                outline = [\<lparr>level = H3, htext = ''1.  Summary.'', hpage = 1\<rparr>]\<rparr>)
   \<and> has_ws_run ''1.  Summary.''
   \<and> last ''1.  Summary.'' = CHR ''.''"
  by (simp add: extract_with_regex_fallback_def summary_doc_pattern is_space_def whitespace_def)

text \<open>
  Claim C5, as amended. In every outline that MetadataStrategy (\<open>_extract_with_toc\<close>) or
  LayoutStrategy (\<open>_extract_with_pymupdf\<close>) returns, no entry text has two white space
  characters in a row, and no entry text begins or ends with one of \<open>. , ; :\<close>.
  (PatternStrategy strips white space from the ends of a match and does nothing else to
  it.)
\<close>

theorem entry_texts_normalized:
  "(extract_with_toc opened s = (Inr (Some r), s') \<longrightarrow>
      (\<forall>h \<in> set (outline r). normalized (htext h)))
   \<and> (extract_with_pymupdf clock mr opened s = (Inr (Some r), s') \<longrightarrow>
        (\<forall>h \<in> set (outline r). normalized (htext h)))"
proof (intro conjI impI ballI)
  fix h
  assume run: "extract_with_toc opened s = (Inr (Some r), s')" and h: "h \<in> set (outline r)"
  from run obtain doc where "toc_outline doc = Some r"
    by (cases opened) (auto simp: extract_with_toc_def)
  then have "outline r = map entry_of (filter retained (get_toc doc))"
    by (rule toc_outline_entries)
  then show "normalized (htext h)"
    using h toc_entries_normalized [of h "get_toc doc"] by simp
next
  fix h
  assume run: "extract_with_pymupdf clock mr opened s = (Inr (Some r), s')"
    and h: "h \<in> set (outline r)"
  from run obtain hs where "outline r = clean_headings hs"
    using layout_outline by blast
  then have "h \<in> set (keep_first (cleaned hs))"
    using h by (simp add: clean_headings_spec)
  then have "h \<in> set (cleaned hs)"
    using set_keep_first [of "cleaned hs"] by blast
  then show "normalized (htext h)"
    by (rule cleaned_normalized)
qed

theorem entry_texts_normalized_witness:
  "extract_with_toc (Inr report_doc) \<lparr>start_time = Some 100, ticks = 1\<rparr> =
     (Inr (Some \<lparr>title = ''Results'',
                 outline = [\<lparr>level = H1, htext = ''Results'', hpage = 1\<rparr>,
                            \<lparr>level = H2, htext = ''Further work'', hpage = 1\<rparr>]\<rparr>),
      \<lparr>start_time = Some 100, ticks = 1\<rparr>)
   \<and> normalized ''Results'' \<and> normalized ''Further work''
   \<and> extract_with_pymupdf still_clock 10 (Inr report_doc) \<lparr>start_time = Some 100, ticks = 1\<rparr> =
     (Inr (Some \<lparr>title = ''Results:'',
                 outline = [\<lparr>level = H1, htext = ''Results'', hpage = 1\<rparr>]\<rparr>),
      \<lparr>start_time = Some 100, ticks = 7\<rparr>)"
  using entry_texts_normalized [of "Inr report_doc" "\<lparr>start_time = Some 100, ticks = 1\<rparr>"
      "\<lparr>title = ''Results'',
        outline = [\<lparr>level = H1, htext = ''Results'', hpage = 1\<rparr>,
                   \<lparr>level = H2, htext = ''Further work'', hpage = 1\<rparr>]\<rparr>"
      "\<lparr>start_time = Some 100, ticks = 1\<rparr>"]
    report_doc_toc report_doc_layout
  by simp

text \<open>
  PatternStrategy on the document whose two pages both have the text
  \<open>1. Introduction\<close>: one entry for each page, with the same text.
\<close>

theorem pattern_duplicates_counterexample:
  "fst (extract_with_regex_fallback (Inr twice_doc) fresh) =
     Inr (Some \<lparr>title = ''Introduction'',
                outline = [\<lparr>level = H2, htext = ''1. Introduction'', hpage = 1\<rparr>,
                           \<lparr>level = H2, htext = ''1. Introduction'', hpage = 2\<rparr>]\<rparr>)
   \<and> \<not> distinct (map htext [\<lparr>level = H2, htext = ''1. Introduction'', hpage = 1\<rparr>,
                              \<lparr>level = H2, htext = ''1. Introduction'', hpage = 2\<rparr>])"
  by (simp add: extract_with_regex_fallback_def twice_doc_pattern)

text \<open>
  Claim C6, as amended. Within one LayoutStrategy extraction no two entries of the
  returned outline have the same text, and of the headings with one text the first is
  kept: the heading loop accepts the candidates of the fragments it looks at without
  those whose text an earlier accepted heading has, and the cleanup pass, which meets the
  accepted headings in the order of \<open>(page, text)\<close>, keeps the first heading of each
  normalized text. (PatternStrategy deduplicates nothing.)
\<close>

theorem layout_texts_distinct:
  "(\<exists>n \<le> length blks.
      fst (extract_headings_multilayer clock mr blks body s) =
        keep_first (cleaned (sort_key (\<lambda>x. (hpage x, htext x))
          (keep_first (candidates body (take n blks))))))
   \<and> distinct (map htext (fst (extract_headings_multilayer clock mr blks body s)))
   \<and> (extract_with_pymupdf clock mr opened s = (Inr (Some r), s') \<longrightarrow>
        distinct (map htext (outline r)))"
proof -
  have run: "fst (extract_headings_multilayer clock mr blks body s) =
      keep_first (cleaned (sort_key (\<lambda>x. (hpage x, htext x))
         (fst (headings_loop clock mr body blks [] {} s))))"
    by (simp add: extract_headings_multilayer_def clean_headings_spec split: prod.splits)
  obtain n where n: "n \<le> length blks"
    "fst (headings_loop clock mr body blks [] {} s) = keep_first (candidates body (take n blks))"
    using headings_loop_spec [of blks clock mr body "[]" "{}" s] by auto
  have first: "\<exists>n \<le> length blks.
      fst (extract_headings_multilayer clock mr blks body s) =
        keep_first (cleaned (sort_key (\<lambda>x. (hpage x, htext x))
          (keep_first (candidates body (take n blks)))))"
    using run n by (intro exI [of _ n]) simp
  have second: "distinct (map htext (fst (extract_headings_multilayer clock mr blks body s)))"
    by (simp only: run distinct_keep_first)
  have third: "distinct (map htext (outline r))"
    if "extract_with_pymupdf clock mr opened s = (Inr (Some r), s')"
  proof -
    from that obtain hs where "outline r = clean_headings hs"
      using layout_outline by blast
    then show ?thesis
      by (simp only: clean_headings_spec distinct_keep_first)
  qed
  show ?thesis
    using first second third by blast
qed

theorem layout_texts_distinct_witness:
  "extract_with_pymupdf still_clock 10 (Inr report_doc) \<lparr>start_time = Some 100, ticks = 1\<rparr> =
     (Inr (Some \<lparr>title = ''Results:'',
                 outline = [\<lparr>level = H1, htext = ''Results'', hpage = 1\<rparr>]\<rparr>),
      \<lparr>start_time = Some 100, ticks = 7\<rparr>)
   \<and> distinct (map htext (outline \<lparr>title = ''Results:'',
         outline = [\<lparr>level = H1, htext = ''Results'', hpage = 1\<rparr>]\<rparr>))"
  using layout_texts_distinct [where clock = still_clock and mr = 10
      and opened = "Inr report_doc" and s = "\<lparr>start_time = Some 100, ticks = 1\<rparr>"
      and r = "\<lparr>title = ''Results:'',
                 outline = [\<lparr>level = H1, htext = ''Results'', hpage = 1\<rparr>]\<rparr>"
      and s' = "\<lparr>start_time = Some 100, ticks = 7\<rparr>"]
    report_doc_layout
  by simp

end
